theory Spec2Isabelle
  imports Main "HOL-Library.Char_ord" "HOL-Library.Sublist" "HOL-Library.Word"
begin

section \<open>Sidecar contract and injection validator (pkg/webhook/sidecar\_spec.go)\<close>

subsection \<open>Constants\<close>

definition SidecarContainerName :: string where
  "SidecarContainerName = ''gke-gcsfuse-sidecar''"

definition SidecarContainerVolumeName :: string where
  "SidecarContainerVolumeName = ''gke-gcsfuse-tmp''"

definition SidecarContainerVolumeMountPath :: string where
  "SidecarContainerVolumeMountPath = ''/tmp''"

subsection \<open>Data model\<close>

text \<open>
  The Kubernetes API structs are declared outside this repository; only the fields the
  code reads or writes are kept. A Go pointer field is an \<open>option\<close> (\<open>None\<close> for nil), a
  slice is a list (a nil slice and an empty slice are both \<open>[]\<close>: \<open>range\<close> runs zero times
  over either), and \<open>map[ResourceName]Quantity\<close> is a map keyed by the resource name.
  \<open>resource.Quantity\<close> is never inspected by the code, so it is a type parameter \<open>'q\<close>.
\<close>

text \<open>
  Modelled from the spec: the declaration of \<open>Config\<close> is in another file of the package.
  The specification lists its contents (image repository, image version, pull-policy
  string, and the CPU, memory and ephemeral-storage limit quantities); the field names
  are those \<open>GetSidecarContainerSpec\<close> reads. The builder takes a pointer to a \<open>Config\<close>;
  the model takes the value it points to.
\<close>

record 'q Config =
  ContainerImage :: string
  ImageVersion :: string
  ImagePullPolicy :: string
  CPULimit :: 'q
  MemoryLimit :: 'q
  EphemeralStorageLimit :: 'q

type_synonym ResourceName = string

definition ResourceCPU :: ResourceName where
  "ResourceCPU = ''cpu''"

definition ResourceMemory :: ResourceName where
  "ResourceMemory = ''memory''"

definition ResourceEphemeralStorage :: ResourceName where
  "ResourceEphemeralStorage = ''ephemeral-storage''"

record SecurityContext =
  AllowPrivilegeEscalation :: "bool option"
  RunAsUser :: "64 word option"
  RunAsGroup :: "64 word option"

record 'q ResourceRequirements =
  Limits :: "ResourceName \<rightharpoonup> 'q"
  Requests :: "ResourceName \<rightharpoonup> 'q"

record VolumeMount =
  VolumeMount_Name :: string
  MountPath :: string

record 'q Container =
  Container_Name :: string
  Container_Image :: string
  Container_ImagePullPolicy :: string
  Container_SecurityContext :: "SecurityContext option"
  Args :: "string list"
  Resources :: "'q ResourceRequirements"
  VolumeMounts :: "VolumeMount list"

record EmptyDirVolumeSource =
  Medium :: string

record HostPathVolumeSource =
  Path :: string

record VolumeSource =
  HostPath :: "HostPathVolumeSource option"
  EmptyDir :: "EmptyDirVolumeSource option"

record Volume =
  Volume_Name :: string
  Volume_VolumeSource :: VolumeSource

record 'q PodSpec =
  Volumes :: "Volume list"
  Containers :: "'q Container list"

record 'q Pod =
  Spec :: "'q PodSpec"

subsection \<open>Builders\<close>

definition GetSidecarContainerSpec :: "'q Config \<Rightarrow> 'q Container" where
  "GetSidecarContainerSpec c =
     \<lparr> Container_Name = SidecarContainerName,
       Container_Image = ContainerImage c @ '':'' @ ImageVersion c,
       Container_ImagePullPolicy = ImagePullPolicy c,
       Container_SecurityContext = Some
         \<lparr> AllowPrivilegeEscalation = Some False,
           RunAsUser = Some 0,
           RunAsGroup = Some 0 \<rparr>,
       Args = [''--v=5''],
       Resources =
         \<lparr> Limits = [ResourceCPU \<mapsto> CPULimit c,
                     ResourceMemory \<mapsto> MemoryLimit c,
                     ResourceEphemeralStorage \<mapsto> EphemeralStorageLimit c],
           Requests = [ResourceCPU \<mapsto> CPULimit c,
                       ResourceMemory \<mapsto> MemoryLimit c,
                       ResourceEphemeralStorage \<mapsto> EphemeralStorageLimit c] \<rparr>,
       VolumeMounts =
         [\<lparr> VolumeMount_Name = SidecarContainerVolumeName,
             MountPath = SidecarContainerVolumeMountPath \<rparr>] \<rparr>"

text \<open>
  The Go function takes no argument; \<open>unit\<close> stands for the call, so that two calls are
  two applications.
\<close>

definition GetSidecarContainerVolumeSpec :: "unit \<Rightarrow> Volume" where
  "GetSidecarContainerVolumeSpec u =
     \<lparr> Volume_Name = SidecarContainerVolumeName,
       Volume_VolumeSource =
         \<lparr> HostPath = None,
           EmptyDir = Some \<lparr> Medium = [] \<rparr> \<rparr> \<rparr>"

subsection \<open>\<open>strings.Index\<close> and \<open>strings.Split\<close>\<close>

text \<open>
  Go strings are byte sequences, as \<open>string\<close> is here. \<open>Index s sep\<close> is the position of
  the first occurrence of \<open>sep\<close> in \<open>s\<close> (\<open>None\<close> for Go's \<open>-1\<close>).
\<close>

fun Index :: "string \<Rightarrow> string \<Rightarrow> nat option" where
  "Index [] sep = (if sep = [] then Some 0 else None)"
| "Index (c # cs) sep =
     (if prefix sep (c # cs) then Some 0 else map_option Suc (Index cs sep))"

text \<open>
  \<open>strings.Split\<close> follows the library's loop: cut at each occurrence of the separator,
  the remainder is the last element. With an empty separator Go cuts after every UTF-8
  sequence; the model cuts after every byte there (that case is not reached: the only
  separator the code passes is \<open>":"\<close>).
\<close>

function strings_Split :: "string \<Rightarrow> string \<Rightarrow> string list" where
  "strings_Split s sep =
     (if sep = [] then map (\<lambda>c. [c]) s
      else case Index s sep of
             None \<Rightarrow> [s]
           | Some m \<Rightarrow> take m s # strings_Split (drop (m + length sep) s) sep)"
  by pat_completeness auto
termination
proof (relation "measure (\<lambda>(s, sep). length s)")
  show "wf (measure (\<lambda>(s, sep). length s))" by simp
next
  fix s sep :: string and m :: nat
  assume sep: "sep \<noteq> []" and m: "Index s sep = Some m"
  have "Index t sep = Some i \<Longrightarrow> i + length sep \<le> length t" for t i
  proof (induction t arbitrary: i)
    case Nil
    then show ?case by (simp split: if_splits)
  next
    case (Cons c cs)
    show ?case
    proof (cases "prefix sep (c # cs)")
      case True
      with Cons.prems have "i = 0" by simp
      from True have "length sep \<le> length (c # cs)" by (rule prefix_length_le)
      with \<open>i = 0\<close> show ?thesis by simp
    next
      case False
      with Cons.prems obtain j where "Index cs sep = Some j" "i = Suc j" by auto
      with Cons.IH show ?thesis by simp
    qed
  qed
  with sep m have "m + length sep \<le> length s" and "0 < length sep"
    by simp_all
  then have "length s - (m + length sep) < length s"
    by arith
  then show "((drop (m + length sep) s, sep), (s, sep)) \<in> measure (\<lambda>(s, sep). length s)"
    by simp
qed

declare strings_Split.simps [simp del]

subsection \<open>Injection validator\<close>

text \<open>
  The inner loop over the volume mounts of the selected container. The second argument
  is the variable \<open>containerInjected\<close>; a \<open>break\<close> returns it.
\<close>

fun mountLoop :: "VolumeMount list \<Rightarrow> bool \<Rightarrow> bool" where
  "mountLoop [] containerInjected = containerInjected"
| "mountLoop (v # vs) containerInjected =
     (if VolumeMount_Name v = SidecarContainerVolumeName
         \<and> MountPath v = SidecarContainerVolumeMountPath
      then True
      else mountLoop vs containerInjected)"

text \<open>
  The outer loop over the containers: the body of the \<open>if\<close> runs the inner loop and then
  breaks, so the containers after the selected one are not visited.
\<close>

fun containerLoop :: "string \<Rightarrow> 'q Container list \<Rightarrow> bool \<Rightarrow> bool" where
  "containerLoop img [] containerInjected = containerInjected"
| "containerLoop img (c # cs) containerInjected =
     (if Container_Name c = SidecarContainerName
         \<and> strings_Split (Container_Image c) '':'' ! 0 = img
      then mountLoop (VolumeMounts c) containerInjected
      else containerLoop img cs containerInjected)"

fun volumeLoop :: "Volume list \<Rightarrow> bool \<Rightarrow> bool" where
  "volumeLoop [] volumeInjected = volumeInjected"
| "volumeLoop (v # vs) volumeInjected =
     (if Volume_Name v = SidecarContainerVolumeName
         \<and> EmptyDir (Volume_VolumeSource v) \<noteq> None
      then True
      else volumeLoop vs volumeInjected)"

definition ValidatePodHasSidecarContainerInjected :: "string \<Rightarrow> 'q Pod \<Rightarrow> bool" where
  "ValidatePodHasSidecarContainerInjected img pod =
     (let containerInjected = containerLoop img (Containers (Spec pod)) False;
          volumeInjected = volumeLoop (Volumes (Spec pod)) False
      in containerInjected \<and> volumeInjected)"

section \<open>Metadata prefetch daemon (cmd/metadata\_prefetch/main.go)\<close>

subsection \<open>Regular expressions (package regexp)\<close>

text \<open>
  The syntax tree of a pattern, with the operators of Go's \<open>regexp/syntax\<close> that the
  pattern of this program uses. \<open>AnyCharNotNL\<close> is \<open>.\<close> without the \<open>s\<close> flag,
  \<open>BeginText\<close> and \<open>EndText\<close> are \<open>^\<close> and \<open>$\<close> without the \<open>m\<close> flag (the beginning and
  the end of the whole text), a \<open>CharClass\<close> is a list of inclusive ranges, \<open>Plus r\<close> is
  one match of \<open>r\<close> followed by \<open>Star r\<close>.

  Go matches runes of UTF-8, the model matches bytes. For this pattern the two agree: its
  literals and its class are ASCII, and the only place where a byte above 127 can be
  consumed is the repetition \<open>.*\<close>, which takes any run of runes without a line feed,
  that is any run of bytes without the byte 10.
\<close>

datatype regex =
    Literal string
  | CharClass "(char \<times> char) list"
  | AnyCharNotNL
  | BeginText
  | EndText
  | Capture regex
  | Concat regex regex
  | Alternate regex regex
  | Star regex
  | Plus regex

text \<open>
  A position in the text is the pair of the text before it and the text after it.
\<close>

type_synonym pos = "string \<times> string"

text \<open>
  The loop of a repetition: from position \<open>p\<close>, every position reached by zero or more
  rounds of \<open>f\<close>. A round that consumes nothing reaches no new position, so only rounds
  that advance are followed; the fuel bounds their number by the length of the text left.
\<close>

primrec starLoop :: "nat \<Rightarrow> (pos \<Rightarrow> pos list) \<Rightarrow> pos \<Rightarrow> pos list" where
  "starLoop 0 f p = [p]"
| "starLoop (Suc n) f p =
     p # concat (map (starLoop n f)
                   (filter (\<lambda>q. length (snd q) < length (snd p)) (f p)))"

text \<open>
  \<open>ends r p\<close> lists the positions at which a match of \<open>r\<close> that starts at \<open>p\<close> can end.
\<close>

primrec ends :: "regex \<Rightarrow> pos \<Rightarrow> pos list" where
  "ends (Literal w) p =
     (if prefix w (snd p) then [(fst p @ w, drop (length w) (snd p))] else [])"
| "ends (CharClass rs) p =
     (case snd p of
        [] \<Rightarrow> []
      | c # cs \<Rightarrow> if list_ex (\<lambda>(lo, hi). lo \<le> c \<and> c \<le> hi) rs
                  then [(fst p @ [c], cs)] else [])"
| "ends AnyCharNotNL p =
     (case snd p of
        [] \<Rightarrow> []
      | c # cs \<Rightarrow> if c \<noteq> CHR 0x0A then [(fst p @ [c], cs)] else [])"
| "ends BeginText p = (if fst p = [] then [p] else [])"
| "ends EndText p = (if snd p = [] then [p] else [])"
| "ends (Capture r) p = ends r p"
| "ends (Concat r1 r2) p = concat (map (ends r2) (ends r1 p))"
| "ends (Alternate r1 r2) p = ends r1 p @ ends r2 p"
| "ends (Star r) p = starLoop (length (snd p)) (ends r) p"
| "ends (Plus r) p =
     concat (map (\<lambda>q. starLoop (length (snd q)) (ends r) q) (ends r p))"

text \<open>
  \<open>MatchString\<close> reports whether the text contains any match of the pattern: a match may
  start at any position of the text.
\<close>

definition positions :: "string \<Rightarrow> pos list" where
  "positions s = map (\<lambda>i. (take i s, drop i s)) [0 ..< Suc (length s)]"

definition MatchString :: "regex \<Rightarrow> string \<Rightarrow> bool" where
  "MatchString re s = list_ex (\<lambda>p. ends re p \<noteq> []) (positions s)"

subsection \<open>Constants and variables of the package\<close>

definition mountPathsLocation :: string where
  "mountPathsLocation = ''/volumes/''"

text \<open>
  The pattern \<^verbatim>\<open>^projects/[0-9]+/machineTypes/(a3|a4|ct5l|ct5lp|ct5p|ct6e)-.*$\<close>.
\<close>

definition supportedMachineRegex :: regex where
  "supportedMachineRegex =
     Concat BeginText
    (Concat (Literal ''projects/'')
    (Concat (Plus (CharClass [(CHR ''0'', CHR ''9'')]))
    (Concat (Literal ''/machineTypes/'')
    (Concat (Capture
       (Alternate (Literal ''a3'')
       (Alternate (Literal ''a4'')
       (Alternate (Literal ''ct5l'')
       (Alternate (Literal ''ct5lp'')
       (Alternate (Literal ''ct5p'')
                  (Literal ''ct6e'')))))))
    (Concat (Literal ''-'')
    (Concat (Star AnyCharNotNL)
            EndText))))))"

subsection \<open>Errors, HTTP and the environment of the process\<close>

text \<open>
  An error is either one a library call returned (its text) or one built by
  \<open>fmt.Errorf\<close> from a format and its argument.
\<close>

datatype error =
    LibError string
  | Errorf_w string error
  | Errorf_v string int

record Request =
  Method :: string
  URL :: string
  Header :: "string \<rightharpoonup> string"

text \<open>
  \<open>ReadAll_Body\<close> is what \<open>io.ReadAll(resp.Body)\<close> returns for this response: the bytes
  read and the error, if any.
\<close>

record Response =
  StatusCode :: int
  ReadAll_Body :: "string \<times> error option"

record DirEntry =
  DirEntry_Name :: string
  IsDir :: bool

text \<open>
  Everything the process reads from outside: the results of the library calls it makes.
  A call that returns \<open>(value, error)\<close> in Go is a pair or a sum here. Every call is taken
  to return: a request that hangs and a command that never exits are outside the model.
  Closing the body of the response (\<open>defer resp.Body.Close()\<close>) changes nothing that the
  model records.
\<close>

record Env =
  NewRequestWithContext :: "string \<Rightarrow> string \<Rightarrow> error + Request"
  Do :: "Request \<Rightarrow> error + Response"
  Getenv :: "string \<Rightarrow> string"
  cmd_Start :: "string \<Rightarrow> string list \<Rightarrow> error option"
  cmd_Wait :: "error option"
  ReadDir :: "string \<Rightarrow> DirEntry list \<times> error option"

definition MethodGet :: string where
  "MethodGet = ''GET''"

definition StatusOK :: int where
  "StatusOK = 200"

subsection \<open>getMachineType\<close>

text \<open>
  The result is Go's pair \<open>(string, error)\<close>, the error \<open>None\<close> for nil.
\<close>

definition getMachineType :: "Env \<Rightarrow> string \<times> error option" where
  "getMachineType env =
     (case NewRequestWithContext env MethodGet
             ''http://metadata.google.internal/computeMetadata/v1/instance/machine-type'' of
        Inl err \<Rightarrow> ([], Some (Errorf_w ''failed to create request: %w'' err))
      | Inr req0 \<Rightarrow>
          (let req = req0\<lparr>Header := (Header req0)(''Metadata-Flavor'' \<mapsto> ''Google'')\<rparr>
           in case Do env req of
                Inl err \<Rightarrow> ([], Some (Errorf_w ''failed to get machine type: %w'' err))
              | Inr resp \<Rightarrow>
                  if StatusCode resp \<noteq> StatusOK
                  then ([], Some (Errorf_v ''unexpected status code: %v'' (StatusCode resp)))
                  else (case ReadAll_Body resp of
                          (body, Some err) \<Rightarrow>
                            ([], Some (Errorf_w ''failed to read response body: %w'' err))
                        | (body, None) \<Rightarrow> (body, None))))"

subsection \<open>getDirectoryNames\<close>

fun directoriesLoop :: "DirEntry list \<Rightarrow> string list \<Rightarrow> string list" where
  "directoriesLoop [] directories = directories"
| "directoriesLoop (item # items) directories =
     (if IsDir item
      then directoriesLoop items (directories @ [DirEntry_Name item])
      else directoriesLoop items directories)"

definition getDirectoryNames :: "Env \<Rightarrow> string \<Rightarrow> string list \<times> error option" where
  "getDirectoryNames env dirPath =
     (case ReadDir env dirPath of
        (items, Some err) \<Rightarrow> ([], Some err)
      | (items, None) \<Rightarrow> (directoriesLoop items [], None))"

subsection \<open>main\<close>

fun strings_Join :: "string list \<Rightarrow> string \<Rightarrow> string" where
  "strings_Join [] sep = []"
| "strings_Join [x] sep = x"
| "strings_Join (x # y # ys) sep = x @ sep @ strings_Join (y # ys) sep"

datatype LogEntry =
    Info string
  | Infof string string
  | Warningf string error
  | Errorf string error

text \<open>
  What the main goroutine does, in order: a log line, the start of a command, and the
  final \<open>select {}\<close>, which blocks forever. The goroutine that waits for SIGTERM and then
  exits the process is not part of this model: a trace is a run in which the signal does
  not arrive.
\<close>

datatype Event =
    Log LogEntry
  | CommandStarted string "string list"
  | SelectForever

text \<open>
  The policy decision of \<open>main\<close> (the variable \<open>enablePrefetch\<close>), from the value of the
  environment variable and the machine type.
\<close>

definition enablePrefetch :: "string \<Rightarrow> string \<Rightarrow> bool" where
  "enablePrefetch val machineType =
     (if val = ''TRUE'' then True
      else if val = ''FALSE'' then False
      else MatchString supportedMachineRegex machineType)"

text \<open>The body of \<open>if enablePrefetch { ... }\<close>.\<close>

definition runPrefetch :: "Env \<Rightarrow> Event list" where
  "runPrefetch env =
     (case cmd_Start env ''ls'' [''-R'', mountPathsLocation] of
        None \<Rightarrow>
          [CommandStarted ''ls'' [''-R'', mountPathsLocation]]
          @ (case getDirectoryNames env mountPathsLocation of
               (mountPaths, None) \<Rightarrow>
                 [Log (Infof ''Running ls on mountPath(s): %s'' (strings_Join mountPaths '', ''))]
             | (mountPaths, Some err) \<Rightarrow>
                 [Log (Warningf ''failed to get mountPaths: %v'' err)])
          @ (case cmd_Wait env of
               Some err \<Rightarrow> [Log (Errorf ''Error while executing ls command: %v'' err)]
             | None \<Rightarrow> [Log (Info ''Metadata prefetch complete'')])
      | Some err \<Rightarrow> [Log (Errorf ''Error starting ls command: %v.'' err)])"

definition main :: "Env \<Rightarrow> Event list" where
  "main env =
     (case getMachineType env of
        (machineType, err) \<Rightarrow>
          (case err of
             Some e \<Rightarrow> [Log (Warningf ''Unable to fetch machine-type, ignoring: %v'' e)]
           | None \<Rightarrow> [])
          @ (let val = Getenv env ''USER_ENABLED_METADATA_PREFETCH''
             in if enablePrefetch val machineType then runPrefetch env else [])
          @ [Log (Info ''Going to sleep...''), SelectForever])"

section \<open>Auxiliary definitions for the statements\<close>

text \<open>
  The specification's reading of the validator: some container with the sidecar name and
  the expected image repository carries the mount, and some volume with the fixed name is
  an empty directory. It is compared below with the function of the source.
\<close>

definition IsInjected_as_claimed :: "string \<Rightarrow> 'q Pod \<Rightarrow> bool" where
  "IsInjected_as_claimed expectedImageRepo pod =
     (list_ex (\<lambda>c. Container_Name c = SidecarContainerName
                 \<and> takeWhile (\<lambda>x. x \<noteq> CHR '':'') (Container_Image c) = expectedImageRepo
                 \<and> list_ex (\<lambda>v. VolumeMount_Name v = SidecarContainerVolumeName
                               \<and> MountPath v = SidecarContainerVolumeMountPath)
                      (VolumeMounts c))
        (Containers (Spec pod))
      \<and> list_ex (\<lambda>v. Volume_Name v = SidecarContainerVolumeName
                    \<and> EmptyDir (Volume_VolumeSource v) \<noteq> None)
          (Volumes (Spec pod)))"

text \<open>Example pods, built with the builders of the source.\<close>

definition exampleConfig :: "string Config" where
  "exampleConfig =
     \<lparr> ContainerImage = ''repoX'', ImageVersion = ''v1'', ImagePullPolicy = ''IfNotPresent'',
       CPULimit = ''250m'', MemoryLimit = ''256Mi'', EphemeralStorageLimit = ''5Gi'' \<rparr>"

definition podOf :: "'q Container list \<Rightarrow> Volume list \<Rightarrow> 'q Pod" where
  "podOf cs vs = \<lparr> Spec = \<lparr> Volumes = vs, Containers = cs \<rparr> \<rparr>"

definition sidecarX :: "string Container" where
  "sidecarX = GetSidecarContainerSpec exampleConfig"

definition sidecarOther :: "string Container" where
  "sidecarOther = GetSidecarContainerSpec (exampleConfig\<lparr>ContainerImage := ''other''\<rparr>)"

definition sidecarNoMount :: "string Container" where
  "sidecarNoMount = sidecarX\<lparr>VolumeMounts := []\<rparr>"

definition sidecarWrongPath :: "string Container" where
  "sidecarWrongPath = sidecarX\<lparr>VolumeMounts :=
      [\<lparr> VolumeMount_Name = SidecarContainerVolumeName, MountPath = ''/var/tmp'' \<rparr>]\<rparr>"

definition hostPathVolume :: Volume where
  "hostPathVolume =
     \<lparr> Volume_Name = SidecarContainerVolumeName,
       Volume_VolumeSource = \<lparr> HostPath = Some \<lparr> Path = ''/tmp'' \<rparr>, EmptyDir = None \<rparr> \<rparr>"

text \<open>
  Names for two expressions of \<open>getMachineType\<close> and one of \<open>main\<close>: the URL of the
  metadata endpoint, the request after \<open>req.Header.Set("Metadata-Flavor", "Google")\<close>, and
  the name of the environment variable.
\<close>

definition metadataURL :: string where
  "metadataURL = ''http://metadata.google.internal/computeMetadata/v1/instance/machine-type''"

definition flavored :: "Request \<Rightarrow> Request" where
  "flavored req = req\<lparr>Header := (Header req)(''Metadata-Flavor'' \<mapsto> ''Google'')\<rparr>"

definition overrideVar :: string where
  "overrideVar = ''USER_ENABLED_METADATA_PREFETCH''"

text \<open>
  Example environments. The metadata server answers \<open>answer\<close> to a request that carries
  the flavor header and 403 to any other; \<open>override\<close> is the value of the environment
  variable.
\<close>

definition exampleEnv :: "(error + Response) \<Rightarrow> string \<Rightarrow> Env" where
  "exampleEnv answer override =
     \<lparr> NewRequestWithContext = (\<lambda>method url. Inr \<lparr> Method = method, URL = url, Header = Map.empty \<rparr>),
       Do = (\<lambda>req. if Header req ''Metadata-Flavor'' = Some ''Google'' then answer
                    else Inr \<lparr> StatusCode = 403, ReadAll_Body = ([], None) \<rparr>),
       Getenv = (\<lambda>key. if key = ''USER_ENABLED_METADATA_PREFETCH'' then override else []),
       cmd_Start = (\<lambda>name args. None),
       cmd_Wait = None,
       ReadDir = (\<lambda>path. ([], None)) \<rparr>"

definition brokenRequestEnv :: Env where
  "brokenRequestEnv =
     (exampleEnv (Inl (LibError ''unreachable'')) [])
       \<lparr> NewRequestWithContext := (\<lambda>method url. Inl (LibError ''net/http: nil Context'')) \<rparr>"

text \<open>
  The form of an accelerated machine type, for the statements about the pattern: a
  decimal digit, the six family tokens, and the text
  \<open>projects/<ds>/machineTypes/<fam>-<rest>\<close>.
\<close>

definition isDigit :: "char \<Rightarrow> bool" where
  "isDigit c = (CHR ''0'' \<le> c \<and> c \<le> CHR ''9'')"

definition families :: "string list" where
  "families = [''a3'', ''a4'', ''ct5l'', ''ct5lp'', ''ct5p'', ''ct6e'']"

definition acceleratedForm :: "string \<Rightarrow> string \<Rightarrow> string \<Rightarrow> string" where
  "acceleratedForm ds fam rest = ''projects/'' @ ds @ ''/machineTypes/'' @ fam @ ''-'' @ rest"

section \<open>Properties of the sidecar contract\<close>

text \<open>
  Claim C7. For every configuration, the container built by \<open>GetSidecarContainerSpec\<close>
  has the same resource limits as requests: the two maps are equal, and each of CPU,
  memory and ephemeral storage is bound to the configured quantity in both. Its list of
  volume mounts has exactly one entry, with the fixed volume name and the fixed mount
  path.
\<close>

theorem GetSidecarContainerSpec_limits_eq_requests:
  fixes cfg :: "'q Config"
  defines "spec \<equiv> GetSidecarContainerSpec cfg"
  shows "Limits (Resources spec) = Requests (Resources spec)
    \<and> Limits (Resources spec) ResourceCPU = Some (CPULimit cfg)
    \<and> Requests (Resources spec) ResourceCPU = Some (CPULimit cfg)
    \<and> Limits (Resources spec) ResourceMemory = Some (MemoryLimit cfg)
    \<and> Requests (Resources spec) ResourceMemory = Some (MemoryLimit cfg)
    \<and> Limits (Resources spec) ResourceEphemeralStorage = Some (EphemeralStorageLimit cfg)
    \<and> Requests (Resources spec) ResourceEphemeralStorage = Some (EphemeralStorageLimit cfg)
    \<and> length (VolumeMounts spec) = 1
    \<and> VolumeMounts spec =
          [\<lparr> VolumeMount_Name = SidecarContainerVolumeName,
              MountPath = SidecarContainerVolumeMountPath \<rparr>]"
  by (simp add: spec_def GetSidecarContainerSpec_def ResourceCPU_def ResourceMemory_def
        ResourceEphemeralStorage_def)

text \<open>
  Claim C8. \<open>GetSidecarContainerVolumeSpec\<close> returns a volume with the fixed volume name
  whose source is an empty directory (the \<open>EmptyDir\<close> pointer is set and no other source
  is), and two calls return equal values.
\<close>

theorem GetSidecarContainerVolumeSpec_fixed:
  "Volume_Name (GetSidecarContainerVolumeSpec u) = SidecarContainerVolumeName
    \<and> EmptyDir (Volume_VolumeSource (GetSidecarContainerVolumeSpec u)) \<noteq> None
    \<and> HostPath (Volume_VolumeSource (GetSidecarContainerVolumeSpec u)) = None
    \<and> GetSidecarContainerVolumeSpec u = GetSidecarContainerVolumeSpec u'"
  by (simp add: GetSidecarContainerVolumeSpec_def)

section \<open>Properties of the injection validator\<close>

lemmas example_defs = exampleConfig_def podOf_def sidecarX_def sidecarOther_def
  sidecarNoMount_def sidecarWrongPath_def hostPathVolume_def
  GetSidecarContainerSpec_def GetSidecarContainerVolumeSpec_def
  SidecarContainerName_def SidecarContainerVolumeName_def SidecarContainerVolumeMountPath_def

text \<open>
  The first element of \<open>strings.Split(s, ":")\<close> is the text of \<open>s\<close> before its first colon
  (all of \<open>s\<close> when it has none).
\<close>

lemma Index_single:
  "Index s [x] = (if x \<in> set s then Some (length (takeWhile (\<lambda>c. c \<noteq> x) s)) else None)"
  by (induction s) auto

lemma Split_colon_first:
  "strings_Split s '':'' ! 0 = takeWhile (\<lambda>c. c \<noteq> CHR '':'') s"
proof (cases "CHR '':'' \<in> set s")
  case True
  then have "Index s '':'' = Some (length (takeWhile (\<lambda>c. c \<noteq> CHR '':'') s))"
    by (simp add: Index_single)
  then show ?thesis
    by (subst strings_Split.simps) (simp add: takeWhile_eq_take [symmetric])
next
  case False
  then have idx: "Index s '':'' = None"
    by (simp add: Index_single)
  from False have tw: "takeWhile (\<lambda>c. c \<noteq> CHR '':'') s = s"
    by auto
  have "strings_Split s '':'' ! 0 = s"
    by (subst strings_Split.simps) (simp add: idx)
  then show ?thesis
    unfolding tw .
qed

text \<open>The three loops, as searches.\<close>

lemma mountLoop_iff:
  "mountLoop vs b = (b \<or> (\<exists>v\<in>set vs. VolumeMount_Name v = SidecarContainerVolumeName
         \<and> MountPath v = SidecarContainerVolumeMountPath))"
  by (induction vs) auto

lemma volumeLoop_iff:
  "volumeLoop vs b = (b \<or> (\<exists>v\<in>set vs. Volume_Name v = SidecarContainerVolumeName
         \<and> EmptyDir (Volume_VolumeSource v) \<noteq> None))"
  by (induction vs) auto

lemma containerLoop_find:
  "containerLoop img cs b =
     (case find (\<lambda>c. Container_Name c = SidecarContainerName
                    \<and> takeWhile (\<lambda>x. x \<noteq> CHR '':'') (Container_Image c) = img) cs of
        None \<Rightarrow> b
      | Some c \<Rightarrow> mountLoop (VolumeMounts c) b)"
  by (induction cs) (simp_all add: Split_colon_first)

lemma Validate_eq:
  "ValidatePodHasSidecarContainerInjected img pod =
     ((case find (\<lambda>c. Container_Name c = SidecarContainerName
                      \<and> takeWhile (\<lambda>x. x \<noteq> CHR '':'') (Container_Image c) = img)
              (Containers (Spec pod)) of
         None \<Rightarrow> False
       | Some c \<Rightarrow> \<exists>v\<in>set (VolumeMounts c).
                     VolumeMount_Name v = SidecarContainerVolumeName
                     \<and> MountPath v = SidecarContainerVolumeMountPath)
      \<and> (\<exists>v\<in>set (Volumes (Spec pod)).
             Volume_Name v = SidecarContainerVolumeName
             \<and> EmptyDir (Volume_VolumeSource v) \<noteq> None))"
  by (simp add: ValidatePodHasSidecarContainerInjected_def containerLoop_find mountLoop_iff
        volumeLoop_iff split: option.splits)

lemma find_split:
  assumes "\<forall>b\<in>set before. \<not> P b" and "P c"
  shows "find P (before @ c # after) = Some c"
  using assms by (induction before) auto

text \<open>
  Claim C2, as stated, fails. In the pod below the first container with the sidecar name
  has another image repository, so it fails the image check; the validator goes on to the
  second container of the same name and accepts the pod.
\<close>

theorem first_named_container_not_decisive:
  "find (\<lambda>c. Container_Name c = SidecarContainerName)
        (Containers (Spec (podOf [sidecarOther, sidecarX] [GetSidecarContainerVolumeSpec ()])))
     = Some sidecarOther
   \<and> strings_Split (Container_Image sidecarOther) '':'' ! 0 \<noteq> ''repoX''
   \<and> ValidatePodHasSidecarContainerInjected ''repoX''
        (podOf [sidecarOther, sidecarX] [GetSidecarContainerVolumeSpec ()])"
  by (simp add: Validate_eq Split_colon_first example_defs)

text \<open>
  Claim C2, amended. The validator inspects only the first container that has both the
  sidecar name and the expected image repository: the containers before it (which fail
  the name or the image test) and all containers after it do not change the result, and
  when that container has no volume mount with the fixed name and path the result is
  false, whatever follows it.
\<close>

theorem first_name_and_image_match_decides:
  assumes "Containers (Spec pod) = before @ c # after"
    and "\<forall>b\<in>set before. \<not> (Container_Name b = SidecarContainerName
            \<and> strings_Split (Container_Image b) '':'' ! 0 = img)"
    and "Container_Name c = SidecarContainerName"
    and "strings_Split (Container_Image c) '':'' ! 0 = img"
  shows "ValidatePodHasSidecarContainerInjected img pod
          = ValidatePodHasSidecarContainerInjected img
              (pod\<lparr>Spec := (Spec pod)\<lparr>Containers := [c]\<rparr>\<rparr>)
       \<and> (\<not> list_ex (\<lambda>v. VolumeMount_Name v = SidecarContainerVolumeName
                         \<and> MountPath v = SidecarContainerVolumeMountPath) (VolumeMounts c)
            \<longrightarrow> \<not> ValidatePodHasSidecarContainerInjected img pod)"
proof -
  let ?P = "\<lambda>c. Container_Name c = SidecarContainerName
                \<and> takeWhile (\<lambda>x. x \<noteq> CHR '':'') (Container_Image c) = img"
  from assms(2) have "\<forall>b\<in>set before. \<not> ?P b"
    by (simp add: Split_colon_first)
  moreover from assms(3,4) have c: "?P c"
    by (simp add: Split_colon_first)
  ultimately have "find ?P (before @ c # after) = Some c"
    by (rule find_split)
  with assms(1) c show ?thesis
    by (simp add: Validate_eq list_ex_iff)
qed

theorem first_name_and_image_match_decides_witness:
  "Containers (Spec (podOf [sidecarOther, sidecarNoMount, sidecarX]
                      [GetSidecarContainerVolumeSpec ()]))
     = [sidecarOther] @ sidecarNoMount # [sidecarX]
   \<and> strings_Split (Container_Image sidecarOther) '':'' ! 0 \<noteq> ''repoX''
   \<and> Container_Name sidecarNoMount = SidecarContainerName
   \<and> strings_Split (Container_Image sidecarNoMount) '':'' ! 0 = ''repoX''
   \<and> VolumeMounts sidecarNoMount = []
   \<and> ValidatePodHasSidecarContainerInjected ''repoX''
        (podOf [sidecarOther, sidecarNoMount, sidecarX] [GetSidecarContainerVolumeSpec ()])
      = ValidatePodHasSidecarContainerInjected ''repoX''
          (podOf [sidecarNoMount] [GetSidecarContainerVolumeSpec ()])
   \<and> \<not> ValidatePodHasSidecarContainerInjected ''repoX''
        (podOf [sidecarOther, sidecarNoMount, sidecarX] [GetSidecarContainerVolumeSpec ()])"
proof -
  let ?pod = "podOf [sidecarOther, sidecarNoMount, sidecarX] [GetSidecarContainerVolumeSpec ()]"
  have h1: "Containers (Spec ?pod) = [sidecarOther] @ sidecarNoMount # [sidecarX]"
    by (simp add: podOf_def)
  have hx: "strings_Split (Container_Image sidecarOther) '':'' ! 0 \<noteq> ''repoX''"
    by (simp add: Split_colon_first example_defs)
  then have h2: "\<forall>b\<in>set [sidecarOther]. \<not> (Container_Name b = SidecarContainerName
            \<and> strings_Split (Container_Image b) '':'' ! 0 = ''repoX'')"
    by simp
  have h3: "Container_Name sidecarNoMount = SidecarContainerName"
    by (simp add: example_defs)
  have h4: "strings_Split (Container_Image sidecarNoMount) '':'' ! 0 = ''repoX''"
    by (simp add: Split_colon_first example_defs)
  have h5: "VolumeMounts sidecarNoMount = []"
    by (simp add: example_defs)
  have h6: "?pod\<lparr>Spec := (Spec ?pod)\<lparr>Containers := [sidecarNoMount]\<rparr>\<rparr>
              = podOf [sidecarNoMount] [GetSidecarContainerVolumeSpec ()]"
    by (simp add: podOf_def)
  note decides = first_name_and_image_match_decides [OF h1 h2 h3 h4, unfolded h6 h5]
  from decides have a: "ValidatePodHasSidecarContainerInjected ''repoX'' ?pod
      = ValidatePodHasSidecarContainerInjected ''repoX''
          (podOf [sidecarNoMount] [GetSidecarContainerVolumeSpec ()])"
    by (rule conjunct1)
  from decides have b: "\<not> ValidatePodHasSidecarContainerInjected ''repoX'' ?pod"
    by auto
  from h1 hx h3 h4 h5 a b show ?thesis
    by (intro conjI)
qed

text \<open>
  Claim C3, as stated, fails in one direction. In the pod below the second container has
  the sidecar name, the expected image repository and the mount, and the volume is an
  empty directory, so both conditions of the claim hold; the validator stops at the first
  container with that name and image, which has no mount, and returns false.
\<close>

theorem some_container_with_mount_not_sufficient:
  "IsInjected_as_claimed ''repoX''
     (podOf [sidecarNoMount, sidecarX] [GetSidecarContainerVolumeSpec ()])
   \<and> \<not> ValidatePodHasSidecarContainerInjected ''repoX''
        (podOf [sidecarNoMount, sidecarX] [GetSidecarContainerVolumeSpec ()])"
  by (simp add: Validate_eq IsInjected_as_claimed_def example_defs)

text \<open>
  Claim C3, amended. The validator returns true exactly when (a) the first container
  with the sidecar name whose image text before the first colon equals the expected
  repository exists and carries a volume mount with the fixed name and path, and (b)
  some volume of the pod with the fixed name has an empty-directory source. Hence the
  result is false when no container has that name and repository, when the selected
  container has no such mount (a wrong path or no mount at all), when no volume of that
  name is an empty directory, and when the container list or the volume list is empty;
  there is no error result.
\<close>

theorem ValidatePodHasSidecarContainerInjected_iff:
  fixes pod :: "'q Pod"
  defines "P \<equiv> \<lambda>img (c :: 'q Container). Container_Name c = SidecarContainerName
                  \<and> takeWhile (\<lambda>x. x \<noteq> CHR '':'') (Container_Image c) = img"
    and "M \<equiv> \<lambda>v. VolumeMount_Name v = SidecarContainerVolumeName
                  \<and> MountPath v = SidecarContainerVolumeMountPath"
    and "E \<equiv> \<lambda>v. Volume_Name v = SidecarContainerVolumeName
                  \<and> EmptyDir (Volume_VolumeSource v) \<noteq> None"
  shows "ValidatePodHasSidecarContainerInjected img pod
           = ((case find (P img) (Containers (Spec pod)) of
                 None \<Rightarrow> False
               | Some c \<Rightarrow> list_ex M (VolumeMounts c))
              \<and> list_ex E (Volumes (Spec pod)))
       \<and> (\<not> list_ex (P img) (Containers (Spec pod))
            \<longrightarrow> \<not> ValidatePodHasSidecarContainerInjected img pod)
       \<and> (\<forall>c. find (P img) (Containers (Spec pod)) = Some c
                \<longrightarrow> \<not> list_ex M (VolumeMounts c)
                \<longrightarrow> \<not> ValidatePodHasSidecarContainerInjected img pod)
       \<and> (\<not> list_ex E (Volumes (Spec pod))
            \<longrightarrow> \<not> ValidatePodHasSidecarContainerInjected img pod)
       \<and> (Containers (Spec pod) = [] \<longrightarrow> \<not> ValidatePodHasSidecarContainerInjected img pod)
       \<and> (Volumes (Spec pod) = [] \<longrightarrow> \<not> ValidatePodHasSidecarContainerInjected img pod)"
proof -
  have eq: "ValidatePodHasSidecarContainerInjected img pod
           = ((case find (P img) (Containers (Spec pod)) of
                 None \<Rightarrow> False
               | Some c \<Rightarrow> list_ex M (VolumeMounts c))
              \<and> list_ex E (Volumes (Spec pod)))"
    by (simp add: Validate_eq P_def M_def E_def list_ex_iff split: option.splits)
  have none: "find (P img) (Containers (Spec pod)) = None"
    if "\<not> list_ex (P img) (Containers (Spec pod))"
    using that by (simp add: find_None_iff list_ex_iff)
  show ?thesis
    using eq none by (auto split: option.splits)
qed

theorem ValidatePodHasSidecarContainerInjected_iff_witness:
  "ValidatePodHasSidecarContainerInjected ''repoX''
     (podOf [sidecarX] [GetSidecarContainerVolumeSpec ()])
   \<and> \<not> ValidatePodHasSidecarContainerInjected ''repoY''
        (podOf [sidecarX] [GetSidecarContainerVolumeSpec ()])
   \<and> \<not> ValidatePodHasSidecarContainerInjected ''repoX''
        (podOf [sidecarWrongPath] [GetSidecarContainerVolumeSpec ()])
   \<and> \<not> ValidatePodHasSidecarContainerInjected ''repoX''
        (podOf [sidecarNoMount] [GetSidecarContainerVolumeSpec ()])
   \<and> \<not> ValidatePodHasSidecarContainerInjected ''repoX''
        (podOf [sidecarX] [hostPathVolume])
   \<and> \<not> ValidatePodHasSidecarContainerInjected ''repoX''
        (podOf ([] :: string Container list) [GetSidecarContainerVolumeSpec ()])
   \<and> \<not> ValidatePodHasSidecarContainerInjected ''repoX''
        (podOf [sidecarX] [])"
  using
    ValidatePodHasSidecarContainerInjected_iff
      [of "''repoX''" "podOf [sidecarX] [GetSidecarContainerVolumeSpec ()]"]
    ValidatePodHasSidecarContainerInjected_iff
      [of "''repoY''" "podOf [sidecarX] [GetSidecarContainerVolumeSpec ()]"]
    ValidatePodHasSidecarContainerInjected_iff
      [of "''repoX''" "podOf [sidecarWrongPath] [GetSidecarContainerVolumeSpec ()]"]
    ValidatePodHasSidecarContainerInjected_iff
      [of "''repoX''" "podOf [sidecarNoMount] [GetSidecarContainerVolumeSpec ()]"]
    ValidatePodHasSidecarContainerInjected_iff
      [of "''repoX''" "podOf [sidecarX] [hostPathVolume]"]
    ValidatePodHasSidecarContainerInjected_iff
      [of "''repoX''" "podOf ([] :: string Container list) [GetSidecarContainerVolumeSpec ()]"]
    ValidatePodHasSidecarContainerInjected_iff
      [of "''repoX''" "podOf [sidecarX] []"]
  by (simp add: example_defs)

section \<open>Properties of the pattern matcher\<close>

text \<open>
  Membership in \<open>ends\<close>, operator by operator: a match of \<open>r\<close> from the position
  \<open>(a, b)\<close> to the position \<open>(a', b')\<close> consumes a word \<open>w\<close> with \<open>b = w @ b'\<close> and
  \<open>a' = a @ w\<close>.
\<close>

lemma mem_ends_Literal:
  "((a', b') \<in> set (ends (Literal w) (a, b))) = (b = w @ b' \<and> a' = a @ w)"
  by (auto simp: prefix_def)

lemma mem_ends_CharClass:
  "((a', b') \<in> set (ends (CharClass rs) (a, b)))
     = (\<exists>c. list_ex (\<lambda>(lo, hi). lo \<le> c \<and> c \<le> hi) rs \<and> b = c # b' \<and> a' = a @ [c])"
  by (cases b) auto

lemma mem_ends_AnyCharNotNL:
  "((a', b') \<in> set (ends AnyCharNotNL (a, b)))
     = (\<exists>c. c \<noteq> CHR 0x0A \<and> b = c # b' \<and> a' = a @ [c])"
  by (cases b) auto

lemma mem_ends_BeginText:
  "((a', b') \<in> set (ends BeginText (a, b))) = (a = [] \<and> a' = a \<and> b' = b)"
  by auto

lemma mem_ends_EndText:
  "((a', b') \<in> set (ends EndText (a, b))) = (b = [] \<and> a' = a \<and> b' = b)"
  by auto

lemma mem_ends_Capture:
  "(q \<in> set (ends (Capture r) p)) = (q \<in> set (ends r p))"
  by simp

lemma mem_ends_Concat:
  "(q \<in> set (ends (Concat r1 r2) p)) = (\<exists>a b. (a, b) \<in> set (ends r1 p) \<and> q \<in> set (ends r2 (a, b)))"
  by auto

lemma mem_ends_Alternate:
  "(q \<in> set (ends (Alternate r1 r2) p)) = (q \<in> set (ends r1 p) \<or> q \<in> set (ends r2 p))"
  by simp

text \<open>
  The fuel of a repetition never runs out: with at least as much fuel as there is text
  left, one more unit changes nothing, because every round that is followed shortens the
  text left.
\<close>

lemma starLoop_enough_fuel:
  "length (snd p) \<le> n \<Longrightarrow> starLoop (Suc n) f p = starLoop n f p"
proof (induction n arbitrary: p)
  case 0
  then show ?case by simp
next
  case (Suc n)
  have "map (starLoop (Suc n) f) (filter (\<lambda>q. length (snd q) < length (snd p)) (f p))
      = map (starLoop n f) (filter (\<lambda>q. length (snd q) < length (snd p)) (f p))"
  proof (rule map_cong [OF refl])
    fix q
    assume "q \<in> set (filter (\<lambda>q. length (snd q) < length (snd p)) (f p))"
    with Suc.prems have "length (snd q) \<le> n"
      by simp
    then show "starLoop (Suc n) f q = starLoop n f q"
      by (rule Suc.IH)
  qed
  then show ?case
    by (simp only: starLoop.simps)
qed

lemma starLoop_more_fuel:
  "length (snd p) \<le> n \<Longrightarrow> starLoop (n + k) f p = starLoop n f p"
proof (induction k)
  case 0
  then show ?case by simp
next
  case (Suc k)
  then have "starLoop (Suc (n + k)) f p = starLoop (n + k) f p"
    by (intro starLoop_enough_fuel) simp
  with Suc show ?case by simp
qed

text \<open>
  The loop of a repetition of a one-character pattern reaches exactly the positions
  behind a run of such characters, as long as the fuel allows.
\<close>

lemma mem_starLoop_class:
  assumes step: "\<And>a b a' b'. ((a', b') \<in> set (f (a, b))) = (\<exists>c. P c \<and> b = c # b' \<and> a' = a @ [c])"
  shows "((a', b') \<in> set (starLoop n f (a, b)))
           = (\<exists>w. length w \<le> n \<and> (\<forall>c\<in>set w. P c) \<and> b = w @ b' \<and> a' = a @ w)"
proof (induction n arbitrary: a b)
  case 0
  show ?case by auto
next
  case (Suc n)
  have "((a', b') \<in> set (starLoop (Suc n) f (a, b)))
      = ((a' = a \<and> b' = b)
         \<or> (\<exists>c bb. P c \<and> b = c # bb \<and> (a', b') \<in> set (starLoop n f (a @ [c], bb))))"
    by (auto simp: step)
  also have "\<dots> = ((a' = a \<and> b' = b)
         \<or> (\<exists>c bb. P c \<and> b = c # bb
               \<and> (\<exists>w. length w \<le> n \<and> (\<forall>c\<in>set w. P c) \<and> bb = w @ b' \<and> a' = (a @ [c]) @ w)))"
    by (simp only: Suc.IH)
  also have "\<dots> = (\<exists>w. length w \<le> Suc n \<and> (\<forall>c\<in>set w. P c) \<and> b = w @ b' \<and> a' = a @ w)"
    (is "?L = ?R")
  proof
    assume ?L
    then show ?R
    proof
      assume "a' = a \<and> b' = b"
      then show ?R by (intro exI [of _ "[]"]) simp
    next
      assume "\<exists>c bb. P c \<and> b = c # bb
               \<and> (\<exists>w. length w \<le> n \<and> (\<forall>c\<in>set w. P c) \<and> bb = w @ b' \<and> a' = (a @ [c]) @ w)"
      then obtain c bb w where "P c" "b = c # bb" "length w \<le> n" "\<forall>c\<in>set w. P c"
        "bb = w @ b'" "a' = (a @ [c]) @ w"
        by blast
      then show ?R by (intro exI [of _ "c # w"]) simp
    qed
  next
    assume ?R
    then obtain w where w: "length w \<le> Suc n" "\<forall>c\<in>set w. P c" "b = w @ b'" "a' = a @ w"
      by blast
    show ?L
    proof (cases w)
      case Nil
      with w show ?thesis by simp
    next
      case (Cons c w')
      with w have "P c \<and> b = c # (w' @ b') \<and> length w' \<le> n \<and> (\<forall>c\<in>set w'. P c)
         \<and> a' = (a @ [c]) @ w'"
        by simp
      then show ?thesis by blast
    qed
  qed
  finally show ?case .
qed

lemma mem_ends_Star_AnyCharNotNL:
  "((a', b') \<in> set (ends (Star AnyCharNotNL) (a, b)))
     = (\<exists>w. CHR 0x0A \<notin> set w \<and> b = w @ b' \<and> a' = a @ w)"
proof -
  have "((a', b') \<in> set (ends (Star AnyCharNotNL) (a, b)))
     = (\<exists>w. length w \<le> length b \<and> (\<forall>c\<in>set w. c \<noteq> CHR 0x0A) \<and> b = w @ b' \<and> a' = a @ w)"
    by (simp add: mem_starLoop_class [of "ends AnyCharNotNL" "\<lambda>c. c \<noteq> CHR 0x0A", OF mem_ends_AnyCharNotNL])
  also have "\<dots> = (\<exists>w. CHR 0x0A \<notin> set w \<and> b = w @ b' \<and> a' = a @ w)"
    by auto
  finally show ?thesis .
qed

lemma mem_ends_Plus_digits:
  "((a', b') \<in> set (ends (Plus (CharClass [(CHR ''0'', CHR ''9'')])) (a, b)))
     = (\<exists>w. w \<noteq> [] \<and> (\<forall>c\<in>set w. isDigit c) \<and> b = w @ b' \<and> a' = a @ w)"
proof -
  let ?f = "ends (CharClass [(CHR ''0'', CHR ''9'')])"
  have step: "((a', b') \<in> set (?f (a, b))) = (\<exists>c. isDigit c \<and> b = c # b' \<and> a' = a @ [c])"
    for a b a' b'
    by (auto simp: mem_ends_CharClass isDigit_def)
  have "((a', b') \<in> set (ends (Plus (CharClass [(CHR ''0'', CHR ''9'')])) (a, b)))
     = (\<exists>a1 b1. (a1, b1) \<in> set (?f (a, b)) \<and> (a', b') \<in> set (starLoop (length b1) ?f (a1, b1)))"
    by auto
  also have "\<dots> = (\<exists>c b1. isDigit c \<and> b = c # b1
        \<and> (\<exists>w. length w \<le> length b1 \<and> (\<forall>c\<in>set w. isDigit c) \<and> b1 = w @ b' \<and> a' = (a @ [c]) @ w))"
    by (simp only: step mem_starLoop_class [of ?f isDigit, OF step]) blast
  also have "\<dots> = (\<exists>w. w \<noteq> [] \<and> (\<forall>c\<in>set w. isDigit c) \<and> b = w @ b' \<and> a' = a @ w)"
    (is "?L = ?R")
  proof
    assume ?L
    then obtain c b1 w where "isDigit c" "b = c # b1" "\<forall>c\<in>set w. isDigit c" "b1 = w @ b'"
      "a' = (a @ [c]) @ w"
      by blast
    then show ?R by (intro exI [of _ "c # w"]) simp
  next
    assume ?R
    then obtain w where w: "w \<noteq> []" "\<forall>c\<in>set w. isDigit c" "b = w @ b'" "a' = a @ w"
      by blast
    then obtain c w' where "w = c # w'" by (cases w) auto
    with w have "isDigit c \<and> b = c # (w' @ b') \<and> length w' \<le> length (w' @ b')
        \<and> (\<forall>c\<in>set w'. isDigit c) \<and> w' @ b' = w' @ b' \<and> a' = (a @ [c]) @ w'"
      by simp
    then show ?L by blast
  qed
  finally show ?thesis .
qed

lemma mem_ends_Plus_digits_word:
  "((a', b') \<in> set (ends (Plus (CharClass [(CHR ''0'', CHR ''9'')])) (a, b)))
     = (\<exists>w. (w \<noteq> [] \<and> (\<forall>c\<in>set w. isDigit c)) \<and> b = w @ b' \<and> a' = a @ w)"
  by (simp only: mem_ends_Plus_digits conj_assoc)

lemma mem_ends_families:
  "((a', b') \<in> set (ends (Capture
       (Alternate (Literal ''a3'')
       (Alternate (Literal ''a4'')
       (Alternate (Literal ''ct5l'')
       (Alternate (Literal ''ct5lp'')
       (Alternate (Literal ''ct5p'')
                  (Literal ''ct6e''))))))) (a, b)))
    = (\<exists>fam. fam \<in> set families \<and> b = fam @ b' \<and> a' = a @ fam)"
proof -
  have "(\<exists>fam. fam \<in> set families \<and> b = fam @ b' \<and> a' = a @ fam)
    = ((b = ''a3'' @ b' \<and> a' = a @ ''a3'') \<or> (b = ''a4'' @ b' \<and> a' = a @ ''a4'')
       \<or> (b = ''ct5l'' @ b' \<and> a' = a @ ''ct5l'') \<or> (b = ''ct5lp'' @ b' \<and> a' = a @ ''ct5lp'')
       \<or> (b = ''ct5p'' @ b' \<and> a' = a @ ''ct5p'') \<or> (b = ''ct6e'' @ b' \<and> a' = a @ ''ct6e''))"
    by (simp add: families_def conj_disj_distribR ex_disj_distrib)
  then show ?thesis
    by (simp only: mem_ends_Capture mem_ends_Alternate mem_ends_Literal)
qed

lemma mem_ends_Literal_word:
  "((a', b') \<in> set (ends (Literal lit) (a, b))) = (\<exists>w. w = lit \<and> b = w @ b' \<and> a' = a @ w)"
  by (simp only: mem_ends_Literal simp_thms ex_simps)

text \<open>
  One step of the pattern, read from its end: a piece that consumes a word, before a
  tail that has to match all the remaining text.
\<close>

lemma tail_step:
  assumes r1: "\<And>a b a' b'. ((a', b') \<in> set (ends r1 (a, b))) = (\<exists>w. L w \<and> b = w @ b' \<and> a' = a @ w)"
    and r2: "\<And>a b a' b'. ((a', b') \<in> set (ends r2 (a, b))) = (K b \<and> b' = [] \<and> a' = a @ b)"
  shows "((a', b') \<in> set (ends (Concat r1 r2) (a, b)))
           = ((\<exists>w rest. L w \<and> K rest \<and> b = w @ rest) \<and> b' = [] \<and> a' = a @ b)"
proof -
  have "((a', b') \<in> set (ends (Concat r1 r2) (a, b)))
      = (\<exists>a1 b1. (\<exists>w. L w \<and> b = w @ b1 \<and> a1 = a @ w) \<and> (K b1 \<and> b' = [] \<and> a' = a1 @ b1))"
    by (subst mem_ends_Concat) (simp only: r1 r2)
  also have "\<dots> = ((\<exists>w rest. L w \<and> K rest \<and> b = w @ rest) \<and> b' = [] \<and> a' = a @ b)"
    (is "?lhs = ?rhs")
  proof
    assume ?lhs
    then obtain a1 b1 w where "L w" "b = w @ b1" "a1 = a @ w" "K b1" "b' = []" "a' = a1 @ b1"
      by blast
    then have "L w \<and> K b1 \<and> b = w @ b1" and "b' = []" and "a' = a @ b"
      by simp_all
    then show ?rhs by blast
  next
    assume ?rhs
    then obtain w rest where "L w" "K rest" "b = w @ rest" "b' = []" "a' = a @ b"
      by blast
    then have "(\<exists>wa. L wa \<and> b = wa @ rest \<and> a @ w = a @ wa)
        \<and> (K rest \<and> b' = [] \<and> a' = (a @ w) @ rest)"
      by auto
    then show ?lhs by blast
  qed
  finally show ?thesis .
qed

lemma mem_ends_tail:
  "((a', b') \<in> set (ends (Concat (Star AnyCharNotNL) EndText) (a, b)))
      = (CHR 0x0A \<notin> set b \<and> b' = [] \<and> a' = a @ b)"
  by (subst mem_ends_Concat)
     (auto simp add: mem_ends_Star_AnyCharNotNL mem_ends_EndText simp del: ends.simps)

lemma mem_ends_shape:
  assumes alt: "\<And>a b a' b'. ((a', b') \<in> set (ends alt (a, b)))
                  = (\<exists>fam. F fam \<and> b = fam @ b' \<and> a' = a @ fam)"
  shows "((a', b') \<in> set (ends
            (Concat BeginText
            (Concat (Literal l1)
            (Concat (Plus (CharClass [(CHR ''0'', CHR ''9'')]))
            (Concat (Literal l2)
            (Concat alt
            (Concat (Literal l3)
            (Concat (Star AnyCharNotNL)
                    EndText))))))) (a, b)))
    = (a = [] \<and> b' = [] \<and> a' = b
       \<and> (\<exists>ds fam rest. b = l1 @ ds @ l2 @ fam @ l3 @ rest
            \<and> ds \<noteq> [] \<and> (\<forall>c\<in>set ds. isDigit c) \<and> F fam \<and> CHR 0x0A \<notin> set rest))"
proof -
  note s6 = tail_step [OF mem_ends_Literal_word mem_ends_tail]
  note s5 = tail_step [OF alt s6]
  note s4 = tail_step [OF mem_ends_Literal_word s5]
  note s3 = tail_step [OF mem_ends_Plus_digits_word s4]
  note s2 = tail_step [OF mem_ends_Literal_word s3]
  have "((a', b') \<in> set (ends
            (Concat BeginText
            (Concat (Literal l1)
            (Concat (Plus (CharClass [(CHR ''0'', CHR ''9'')]))
            (Concat (Literal l2)
            (Concat alt
            (Concat (Literal l3)
            (Concat (Star AnyCharNotNL)
                    EndText))))))) (a, b)))
     = (a = [] \<and> (a', b') \<in> set (ends
            (Concat (Literal l1)
            (Concat (Plus (CharClass [(CHR ''0'', CHR ''9'')]))
            (Concat (Literal l2)
            (Concat alt
            (Concat (Literal l3)
            (Concat (Star AnyCharNotNL)
                    EndText)))))) (a, b)))"
    by (subst mem_ends_Concat) (auto simp add: mem_ends_BeginText simp del: ends.simps)
  also have "\<dots> = (a = [] \<and> b' = [] \<and> a' = b
       \<and> (\<exists>ds fam rest. b = l1 @ ds @ l2 @ fam @ l3 @ rest
            \<and> ds \<noteq> [] \<and> (\<forall>c\<in>set ds. isDigit c) \<and> F fam \<and> CHR 0x0A \<notin> set rest))"
    unfolding s2 by (rule iffI; clarsimp; blast)
  finally show ?thesis .
qed

lemma mem_ends_supported:
  "((a', b') \<in> set (ends supportedMachineRegex (a, b)))
    = (a = [] \<and> b' = [] \<and> a' = b
       \<and> (\<exists>ds fam rest. b = acceleratedForm ds fam rest
            \<and> ds \<noteq> [] \<and> (\<forall>c\<in>set ds. isDigit c)
            \<and> fam \<in> set families \<and> CHR 0x0A \<notin> set rest))"
  unfolding supportedMachineRegex_def acceleratedForm_def
  by (rule mem_ends_shape [OF mem_ends_families])

lemma list_ex_positions:
  "list_ex P (positions s) = (\<exists>i\<le>length s. P (take i s, drop i s))"
  by (auto simp add: positions_def list_ex_iff less_Suc_eq_le simp del: upt_Suc)

text \<open>
  The pattern is anchored at both ends, so a match anywhere is a match of the whole text,
  and the text then has the form of an accelerated machine type.
\<close>

lemma MatchString_supported_iff:
  "MatchString supportedMachineRegex s
     = (\<exists>ds fam rest. s = acceleratedForm ds fam rest
          \<and> ds \<noteq> [] \<and> (\<forall>c\<in>set ds. isDigit c)
          \<and> fam \<in> set families \<and> CHR 0x0A \<notin> set rest)"
  (is "?lhs = ?rhs")
proof
  assume ?lhs
  then obtain i where i: "i \<le> length s"
      and ne: "ends supportedMachineRegex (take i s, drop i s) \<noteq> []"
    by (auto simp: MatchString_def list_ex_positions)
  from ne obtain a' b' where "(a', b') \<in> set (ends supportedMachineRegex (take i s, drop i s))"
    by (cases "ends supportedMachineRegex (take i s, drop i s)") auto
  then have t: "take i s = []"
      and form: "\<exists>ds fam rest. drop i s = acceleratedForm ds fam rest
          \<and> ds \<noteq> [] \<and> (\<forall>c\<in>set ds. isDigit c)
          \<and> fam \<in> set families \<and> CHR 0x0A \<notin> set rest"
    by (simp_all only: mem_ends_supported)
  from t have "drop i s = s"
    by (metis append_Nil append_take_drop_id)
  with form show ?rhs by simp
next
  assume ?rhs
  then have "(s, []) \<in> set (ends supportedMachineRegex ([], s))"
    by (simp only: mem_ends_supported simp_thms)
  then have "ends supportedMachineRegex (take 0 s, drop 0 s) \<noteq> []"
    by auto
  then show ?lhs
    unfolding MatchString_def list_ex_positions by blast
qed

lemma split_at_first:
  assumes "c \<notin> set xs" and "c \<notin> set xs'" and "xs @ c # ys = xs' @ c # ys'"
  shows "xs = xs' \<and> ys = ys'"
proof -
  have tw: "takeWhile (\<lambda>x. x \<noteq> c) (zs @ c # us) = zs" if "c \<notin> set zs" for zs us
    using that by (induction zs) auto
  from assms(1) have "takeWhile (\<lambda>x. x \<noteq> c) (xs @ c # ys) = xs"
    by (rule tw)
  moreover from assms(2) have "takeWhile (\<lambda>x. x \<noteq> c) (xs' @ c # ys') = xs'"
    by (rule tw)
  ultimately have "xs = xs'"
    using assms(3) by simp
  with assms(3) show ?thesis by simp
qed

lemma isDigit_not_slash: "isDigit c \<Longrightarrow> c \<noteq> CHR ''/''"
  by (auto simp: isDigit_def)

lemma families_no_dash: "fam \<in> set families \<Longrightarrow> CHR ''-'' \<notin> set fam"
  by (auto simp: families_def)

lemma form_project_unique:
  assumes "''projects/'' @ p @ ''/machineTypes/'' @ tail = acceleratedForm ds fam rest"
    and "CHR ''/'' \<notin> set p" and "\<forall>c\<in>set ds. isDigit c"
  shows "p = ds \<and> tail = fam @ ''-'' @ rest"
proof -
  from assms(3) have "CHR ''/'' \<notin> set ds"
    using isDigit_not_slash by blast
  moreover from assms(1)
  have "p @ CHR ''/'' # (''machineTypes/'' @ tail) = ds @ CHR ''/'' # (''machineTypes/'' @ fam @ ''-'' @ rest)"
    by (simp add: acceleratedForm_def)
  ultimately have "p = ds \<and> ''machineTypes/'' @ tail = ''machineTypes/'' @ fam @ ''-'' @ rest"
    using assms(2) by (intro split_at_first [of "CHR ''/''"])
  then show ?thesis by simp
qed

lemma no_match_other_family:
  assumes "\<forall>c\<in>set ds. isDigit c" and "CHR ''-'' \<notin> set seg" and "seg \<notin> set families"
  shows "\<not> MatchString supportedMachineRegex (acceleratedForm ds seg rest)"
proof
  assume "MatchString supportedMachineRegex (acceleratedForm ds seg rest)"
  then obtain ds' fam rest' where eq: "acceleratedForm ds seg rest = acceleratedForm ds' fam rest'"
      and ds': "\<forall>c\<in>set ds'. isDigit c" and fam: "fam \<in> set families"
    unfolding MatchString_supported_iff by blast
  from assms(1) have "CHR ''/'' \<notin> set ds"
    using isDigit_not_slash by blast
  with eq ds' have "seg @ ''-'' @ rest = fam @ ''-'' @ rest'"
    using form_project_unique [of ds "seg @ ''-'' @ rest" ds' fam rest']
    by (simp add: acceleratedForm_def)
  then have "seg @ CHR ''-'' # rest = fam @ CHR ''-'' # rest'"
    by simp
  with assms(2) families_no_dash [OF fam] have "seg = fam"
    using split_at_first [of "CHR ''-''" seg fam rest rest'] by blast
  with fam assms(3) show False by simp
qed

lemma no_match_without_dash:
  assumes "\<forall>c\<in>set ds. isDigit c" and "CHR ''-'' \<notin> set tail"
  shows "\<not> MatchString supportedMachineRegex (''projects/'' @ ds @ ''/machineTypes/'' @ tail)"
proof
  assume "MatchString supportedMachineRegex (''projects/'' @ ds @ ''/machineTypes/'' @ tail)"
  then obtain ds' fam rest'
    where eq: "''projects/'' @ ds @ ''/machineTypes/'' @ tail = acceleratedForm ds' fam rest'"
      and ds': "\<forall>c\<in>set ds'. isDigit c"
    unfolding MatchString_supported_iff by blast
  from assms(1) have "CHR ''/'' \<notin> set ds"
    using isDigit_not_slash by blast
  with eq ds' have "tail = fam @ ''-'' @ rest'"
    using form_project_unique [of ds tail ds' fam rest'] by simp
  with assms(2) show False by simp
qed

lemma no_match_project_not_number:
  assumes "CHR ''/'' \<notin> set p" and "p = [] \<or> (\<exists>c\<in>set p. \<not> isDigit c)"
  shows "\<not> MatchString supportedMachineRegex (''projects/'' @ p @ ''/machineTypes/'' @ tail)"
proof
  assume "MatchString supportedMachineRegex (''projects/'' @ p @ ''/machineTypes/'' @ tail)"
  then obtain ds' fam rest'
    where eq: "''projects/'' @ p @ ''/machineTypes/'' @ tail = acceleratedForm ds' fam rest'"
      and ne: "ds' \<noteq> []" and ds': "\<forall>c\<in>set ds'. isDigit c"
    unfolding MatchString_supported_iff by blast
  from eq assms(1) ds' have "p = ds'"
    using form_project_unique [of p tail ds' fam rest'] by simp
  with ne ds' assms(2) show False by blast
qed

lemma no_match_empty: "\<not> MatchString supportedMachineRegex []"
  by code_simp

text \<open>
  Claim C5. The match of the fixed pattern (the specification's \<open>IsAcceleratedFamily\<close>) is
  true for \<open>projects/123/machineTypes/a3-highgpu-8g\<close> and
  \<open>projects/1/machineTypes/ct5lp-hightpu-4t\<close>, and false for
  \<open>projects/123/machineTypes/n2-standard-4\<close> and for the empty string. \<open>MatchString\<close> is a
  total function into the booleans: it has a value on every text and no error result.
\<close>

theorem supportedMachineRegex_examples:
  "MatchString supportedMachineRegex ''projects/123/machineTypes/a3-highgpu-8g''
   \<and> MatchString supportedMachineRegex ''projects/1/machineTypes/ct5lp-hightpu-4t''
   \<and> \<not> MatchString supportedMachineRegex ''projects/123/machineTypes/n2-standard-4''
   \<and> \<not> MatchString supportedMachineRegex []"
  by code_simp

text \<open>
  Claim C10. A text that matches the pattern has, as a whole, the form
  \<open>projects/<digits>/machineTypes/<family>-<rest>\<close> with at least one digit and with the
  family one of the six tokens \<open>a3\<close>, \<open>a4\<close>, \<open>ct5l\<close>, \<open>ct5lp\<close>, \<open>ct5p\<close>, \<open>ct6e\<close>, followed
  by a hyphen; and it matches exactly when it has that form with no line feed in the
  rest. So there is no match when the segment before the first hyphen is not one of the
  tokens (as in \<open>a35-x\<close>), when nothing after \<open>machineTypes/\<close> is a hyphen (as in \<open>a3\<close>),
  and when the project segment is empty or has a character that is not a digit.
\<close>

theorem supportedMachineRegex_shape:
  "(MatchString supportedMachineRegex s
      \<longrightarrow> (\<exists>ds fam rest. s = ''projects/'' @ ds @ ''/machineTypes/'' @ fam @ ''-'' @ rest
             \<and> ds \<noteq> [] \<and> (\<forall>c\<in>set ds. isDigit c) \<and> fam \<in> set families))
   \<and> MatchString supportedMachineRegex s
       = (\<exists>ds fam rest. s = ''projects/'' @ ds @ ''/machineTypes/'' @ fam @ ''-'' @ rest
             \<and> ds \<noteq> [] \<and> (\<forall>c\<in>set ds. isDigit c) \<and> fam \<in> set families
             \<and> CHR 0x0A \<notin> set rest)
   \<and> ((\<forall>c\<in>set ds. isDigit c) \<longrightarrow> CHR ''-'' \<notin> set seg \<longrightarrow> seg \<notin> set families
        \<longrightarrow> \<not> MatchString supportedMachineRegex
              (''projects/'' @ ds @ ''/machineTypes/'' @ seg @ ''-'' @ rest))
   \<and> ((\<forall>c\<in>set ds. isDigit c) \<longrightarrow> CHR ''-'' \<notin> set tail
        \<longrightarrow> \<not> MatchString supportedMachineRegex (''projects/'' @ ds @ ''/machineTypes/'' @ tail))
   \<and> (CHR ''/'' \<notin> set p \<longrightarrow> (p = [] \<or> (\<exists>c\<in>set p. \<not> isDigit c))
        \<longrightarrow> \<not> MatchString supportedMachineRegex (''projects/'' @ p @ ''/machineTypes/'' @ tail'))
   \<and> \<not> MatchString supportedMachineRegex ''projects/123/machineTypes/a35-x''
   \<and> \<not> MatchString supportedMachineRegex ''projects/123/machineTypes/a3''
   \<and> \<not> MatchString supportedMachineRegex ''projects/abc/machineTypes/a3-x''"
proof -
  have iff: "MatchString supportedMachineRegex s
       = (\<exists>ds fam rest. s = ''projects/'' @ ds @ ''/machineTypes/'' @ fam @ ''-'' @ rest
             \<and> ds \<noteq> [] \<and> (\<forall>c\<in>set ds. isDigit c) \<and> fam \<in> set families
             \<and> CHR 0x0A \<notin> set rest)"
    unfolding MatchString_supported_iff acceleratedForm_def ..
  then have req: "MatchString supportedMachineRegex s
      \<longrightarrow> (\<exists>ds fam rest. s = ''projects/'' @ ds @ ''/machineTypes/'' @ fam @ ''-'' @ rest
             \<and> ds \<noteq> [] \<and> (\<forall>c\<in>set ds. isDigit c) \<and> fam \<in> set families)"
    by blast
  have g1: "(\<forall>c\<in>set ds. isDigit c) \<longrightarrow> CHR ''-'' \<notin> set seg \<longrightarrow> seg \<notin> set families
        \<longrightarrow> \<not> MatchString supportedMachineRegex
              (''projects/'' @ ds @ ''/machineTypes/'' @ seg @ ''-'' @ rest)"
    using no_match_other_family [of ds seg rest] unfolding acceleratedForm_def by blast
  have g2: "(\<forall>c\<in>set ds. isDigit c) \<longrightarrow> CHR ''-'' \<notin> set tail
        \<longrightarrow> \<not> MatchString supportedMachineRegex (''projects/'' @ ds @ ''/machineTypes/'' @ tail)"
    using no_match_without_dash [of ds tail] by blast
  have g3: "CHR ''/'' \<notin> set p \<longrightarrow> (p = [] \<or> (\<exists>c\<in>set p. \<not> isDigit c))
        \<longrightarrow> \<not> MatchString supportedMachineRegex (''projects/'' @ p @ ''/machineTypes/'' @ tail')"
    using no_match_project_not_number [of p tail'] by blast
  have e1: "\<not> MatchString supportedMachineRegex ''projects/123/machineTypes/a35-x''"
    by code_simp
  have e2: "\<not> MatchString supportedMachineRegex ''projects/123/machineTypes/a3''"
    by code_simp
  have e3: "\<not> MatchString supportedMachineRegex ''projects/abc/machineTypes/a3-x''"
    by code_simp
  from req iff g1 g2 g3 e1 e2 e3 show ?thesis
    by (intro conjI)
qed

theorem supportedMachineRegex_shape_witness:
  "MatchString supportedMachineRegex ''projects/123/machineTypes/ct5lp-hightpu-4t''
   \<and> (\<exists>ds fam rest. ''projects/123/machineTypes/ct5lp-hightpu-4t''
             = ''projects/'' @ ds @ ''/machineTypes/'' @ fam @ ''-'' @ rest
         \<and> ds \<noteq> [] \<and> (\<forall>c\<in>set ds. isDigit c) \<and> fam \<in> set families)
   \<and> \<not> MatchString supportedMachineRegex ''projects/123/machineTypes/a35-x''
   \<and> \<not> MatchString supportedMachineRegex ''projects/123/machineTypes/a3''
   \<and> \<not> MatchString supportedMachineRegex ''projects/abc/machineTypes/a3-x''"
proof -
  have m: "MatchString supportedMachineRegex ''projects/123/machineTypes/ct5lp-hightpu-4t''"
    by code_simp
  have d: "\<forall>c\<in>set ''123''. isDigit c"
    by (simp add: isDigit_def)
  have a35: "CHR ''-'' \<notin> set ''a35''" "''a35'' \<notin> set families"
    by (simp_all add: families_def)
  have a3: "CHR ''-'' \<notin> set ''a3''"
    by simp
  have abc: "CHR ''/'' \<notin> set ''abc''" "''abc'' = [] \<or> (\<exists>c\<in>set ''abc''. \<not> isDigit c)"
    by (simp_all add: isDigit_def)
  note inst = supportedMachineRegex_shape [where s = "''projects/123/machineTypes/ct5lp-hightpu-4t''"
      and ds = "''123''" and seg = "''a35''" and rest = "''x''" and tail = "''a3''"
      and p = "''abc''" and tail' = "''a3-x''"]
  from inst have "MatchString supportedMachineRegex ''projects/123/machineTypes/ct5lp-hightpu-4t''
      \<longrightarrow> (\<exists>ds fam rest. ''projects/123/machineTypes/ct5lp-hightpu-4t''
             = ''projects/'' @ ds @ ''/machineTypes/'' @ fam @ ''-'' @ rest
         \<and> ds \<noteq> [] \<and> (\<forall>c\<in>set ds. isDigit c) \<and> fam \<in> set families)"
    by (rule conjunct1)
  then have form: "\<exists>ds fam rest. ''projects/123/machineTypes/ct5lp-hightpu-4t''
             = ''projects/'' @ ds @ ''/machineTypes/'' @ fam @ ''-'' @ rest
         \<and> ds \<noteq> [] \<and> (\<forall>c\<in>set ds. isDigit c) \<and> fam \<in> set families"
    using m by (rule mp)
  from inst d a35 have n1: "\<not> MatchString supportedMachineRegex ''projects/123/machineTypes/a35-x''"
    by simp
  from inst d a3 have n2: "\<not> MatchString supportedMachineRegex ''projects/123/machineTypes/a3''"
    by simp
  from inst abc have n3: "\<not> MatchString supportedMachineRegex ''projects/abc/machineTypes/a3-x''"
    by simp
  from m form n1 n2 n3 show ?thesis
    by (intro conjI)
qed

section \<open>Properties of the machine-type fetch\<close>

lemma getMachineType_cases:
  "getMachineType env =
     (case NewRequestWithContext env MethodGet metadataURL of
        Inl err \<Rightarrow> ([], Some (Errorf_w ''failed to create request: %w'' err))
      | Inr req0 \<Rightarrow>
          (case Do env (flavored req0) of
             Inl err \<Rightarrow> ([], Some (Errorf_w ''failed to get machine type: %w'' err))
           | Inr resp \<Rightarrow>
               if StatusCode resp \<noteq> StatusOK
               then ([], Some (Errorf_v ''unexpected status code: %v'' (StatusCode resp)))
               else (case snd (ReadAll_Body resp) of
                       Some err \<Rightarrow> ([], Some (Errorf_w ''failed to read response body: %w'' err))
                     | None \<Rightarrow> (fst (ReadAll_Body resp), None))))"
  by (simp add: getMachineType_def metadataURL_def flavored_def Let_def
        split: sum.splits prod.splits option.splits)

lemma getMachineType_error_fst:
  "snd (getMachineType env) \<noteq> None \<Longrightarrow> fst (getMachineType env) = []"
  by (auto simp: getMachineType_cases split: sum.splits option.splits if_splits)

text \<open>
  Claim C6. \<open>getMachineType\<close> returns an error exactly when the request cannot be
  constructed, the transport fails, the status of the response is not 200, or the body
  cannot be read to its end; each of these gives its own error and the empty string. On
  a response with status 200 whose body is read without error it returns the body and no
  error.
\<close>

theorem getMachineType_error_cases:
  "(\<forall>e. NewRequestWithContext env MethodGet metadataURL = Inl e
        \<longrightarrow> getMachineType env = ([], Some (Errorf_w ''failed to create request: %w'' e)))
   \<and> (\<forall>req0 e. NewRequestWithContext env MethodGet metadataURL = Inr req0
        \<longrightarrow> Do env (flavored req0) = Inl e
        \<longrightarrow> getMachineType env = ([], Some (Errorf_w ''failed to get machine type: %w'' e)))
   \<and> (\<forall>req0 resp. NewRequestWithContext env MethodGet metadataURL = Inr req0
        \<longrightarrow> Do env (flavored req0) = Inr resp
        \<longrightarrow> StatusCode resp \<noteq> StatusOK
        \<longrightarrow> getMachineType env
              = ([], Some (Errorf_v ''unexpected status code: %v'' (StatusCode resp))))
   \<and> (\<forall>req0 resp body e. NewRequestWithContext env MethodGet metadataURL = Inr req0
        \<longrightarrow> Do env (flavored req0) = Inr resp
        \<longrightarrow> StatusCode resp = StatusOK
        \<longrightarrow> ReadAll_Body resp = (body, Some e)
        \<longrightarrow> getMachineType env
              = ([], Some (Errorf_w ''failed to read response body: %w'' e)))
   \<and> (\<forall>req0 resp body. NewRequestWithContext env MethodGet metadataURL = Inr req0
        \<longrightarrow> Do env (flavored req0) = Inr resp
        \<longrightarrow> StatusCode resp = StatusOK
        \<longrightarrow> ReadAll_Body resp = (body, None)
        \<longrightarrow> getMachineType env = (body, None))
   \<and> (snd (getMachineType env) \<noteq> None) =
       ((\<exists>e. NewRequestWithContext env MethodGet metadataURL = Inl e)
        \<or> (\<exists>req0 e. NewRequestWithContext env MethodGet metadataURL = Inr req0
              \<and> Do env (flavored req0) = Inl e)
        \<or> (\<exists>req0 resp. NewRequestWithContext env MethodGet metadataURL = Inr req0
              \<and> Do env (flavored req0) = Inr resp \<and> StatusCode resp \<noteq> StatusOK)
        \<or> (\<exists>req0 resp e. NewRequestWithContext env MethodGet metadataURL = Inr req0
              \<and> Do env (flavored req0) = Inr resp \<and> StatusCode resp = StatusOK
              \<and> snd (ReadAll_Body resp) = Some e))"
  by (auto simp: getMachineType_cases split: sum.splits option.splits)

theorem getMachineType_error_cases_witness:
  "getMachineType brokenRequestEnv
     = ([], Some (Errorf_w ''failed to create request: %w'' (LibError ''net/http: nil Context'')))
   \<and> getMachineType (exampleEnv (Inl (LibError ''connection refused'')) [])
     = ([], Some (Errorf_w ''failed to get machine type: %w'' (LibError ''connection refused'')))
   \<and> getMachineType (exampleEnv (Inr \<lparr> StatusCode = 404, ReadAll_Body = (''not found'', None) \<rparr>) [])
     = ([], Some (Errorf_v ''unexpected status code: %v'' 404))
   \<and> getMachineType (exampleEnv (Inr \<lparr> StatusCode = 200,
          ReadAll_Body = (''projects/1/machineTy'', Some (LibError ''unexpected EOF'')) \<rparr>) [])
     = ([], Some (Errorf_w ''failed to read response body: %w'' (LibError ''unexpected EOF'')))
   \<and> getMachineType (exampleEnv (Inr \<lparr> StatusCode = 200,
          ReadAll_Body = (''projects/1/machineTypes/a3-highgpu-8g'', None) \<rparr>) [])
     = (''projects/1/machineTypes/a3-highgpu-8g'', None)"
  using getMachineType_error_cases [of brokenRequestEnv]
    getMachineType_error_cases [of "exampleEnv (Inl (LibError ''connection refused'')) []"]
    getMachineType_error_cases [of "exampleEnv (Inr \<lparr> StatusCode = 404, ReadAll_Body = (''not found'', None) \<rparr>) []"]
    getMachineType_error_cases [of "exampleEnv (Inr \<lparr> StatusCode = 200,
          ReadAll_Body = (''projects/1/machineTy'', Some (LibError ''unexpected EOF'')) \<rparr>) []"]
    getMachineType_error_cases [of "exampleEnv (Inr \<lparr> StatusCode = 200,
          ReadAll_Body = (''projects/1/machineTypes/a3-highgpu-8g'', None) \<rparr>) []"]
  by (simp add: exampleEnv_def brokenRequestEnv_def flavored_def metadataURL_def
        MethodGet_def StatusOK_def)

text \<open>
  Claim C9. When \<open>getMachineType\<close> returns an error, the string it returns is empty; the
  empty string does not match the pattern; and \<open>main\<close> logs the warning and computes its
  decision over that empty machine type.
\<close>

theorem getMachineType_error_empty_machine_type:
  assumes "snd (getMachineType env) = Some e"
  shows "fst (getMachineType env) = []
    \<and> \<not> MatchString supportedMachineRegex (fst (getMachineType env))
    \<and> main env =
        [Log (Warningf ''Unable to fetch machine-type, ignoring: %v'' e)]
        @ (if enablePrefetch (Getenv env overrideVar) [] then runPrefetch env else [])
        @ [Log (Info ''Going to sleep...''), SelectForever]"
proof -
  from assms have empty: "fst (getMachineType env) = []"
    by (simp add: getMachineType_error_fst)
  with assms have "getMachineType env = ([], Some e)"
    by (simp add: prod_eq_iff)
  then have "main env =
        [Log (Warningf ''Unable to fetch machine-type, ignoring: %v'' e)]
        @ (if enablePrefetch (Getenv env overrideVar) [] then runPrefetch env else [])
        @ [Log (Info ''Going to sleep...''), SelectForever]"
    by (simp add: main_def overrideVar_def)
  with empty no_match_empty show ?thesis
    by simp
qed

theorem getMachineType_error_empty_machine_type_witness:
  "snd (getMachineType (exampleEnv (Inr \<lparr> StatusCode = 503, ReadAll_Body = ([], None) \<rparr>) ''TRUE''))
     = Some (Errorf_v ''unexpected status code: %v'' 503)
   \<and> fst (getMachineType (exampleEnv (Inr \<lparr> StatusCode = 503, ReadAll_Body = ([], None) \<rparr>) ''TRUE''))
     = []
   \<and> main (exampleEnv (Inr \<lparr> StatusCode = 503, ReadAll_Body = ([], None) \<rparr>) ''TRUE'') =
        [Log (Warningf ''Unable to fetch machine-type, ignoring: %v''
               (Errorf_v ''unexpected status code: %v'' 503)),
         CommandStarted ''ls'' [''-R'', ''/volumes/''],
         Log (Infof ''Running ls on mountPath(s): %s'' []),
         Log (Info ''Metadata prefetch complete''),
         Log (Info ''Going to sleep...''),
         SelectForever]"
proof -
  let ?env = "exampleEnv (Inr \<lparr> StatusCode = 503, ReadAll_Body = ([], None) \<rparr>) ''TRUE''"
  have h: "snd (getMachineType ?env) = Some (Errorf_v ''unexpected status code: %v'' 503)"
    by (simp add: getMachineType_def exampleEnv_def StatusOK_def)
  have on: "enablePrefetch (Getenv ?env overrideVar) []"
    by (simp add: enablePrefetch_def exampleEnv_def overrideVar_def)
  have run: "runPrefetch ?env =
        [CommandStarted ''ls'' [''-R'', ''/volumes/''],
         Log (Infof ''Running ls on mountPath(s): %s'' []),
         Log (Info ''Metadata prefetch complete'')]"
    by (simp add: runPrefetch_def getDirectoryNames_def exampleEnv_def mountPathsLocation_def)
  from getMachineType_error_empty_machine_type [OF h] h on run show ?thesis
    by simp
qed

section \<open>Properties of the prefetch policy and of the daemon\<close>

text \<open>
  Claim C1. The decision (the specification's \<open>Decide\<close>) is true with the override
  \<open>TRUE\<close> and false with the override \<open>FALSE\<close>, whatever the machine type; with any
  other override, the empty string included, it is the match of the pattern on the
  machine type. So it is true for \<open>projects/1/machineTypes/a3-x\<close> and false for
  \<open>projects/1/machineTypes/n2-x\<close> with the empty override. The comparison is exact and
  case-sensitive: \<open>true\<close>, \<open>false\<close> and \<open>TRUE\<close> followed by a space are not overrides.
\<close>

theorem enablePrefetch_override_policy:
  "enablePrefetch ''TRUE'' m
   \<and> \<not> enablePrefetch ''FALSE'' m
   \<and> (v \<noteq> ''TRUE'' \<longrightarrow> v \<noteq> ''FALSE''
        \<longrightarrow> enablePrefetch v m = MatchString supportedMachineRegex m)
   \<and> enablePrefetch [] m = MatchString supportedMachineRegex m
   \<and> enablePrefetch [] ''projects/1/machineTypes/a3-x''
   \<and> \<not> enablePrefetch [] ''projects/1/machineTypes/n2-x''
   \<and> enablePrefetch ''true'' m = MatchString supportedMachineRegex m
   \<and> enablePrefetch ''false'' m = MatchString supportedMachineRegex m
   \<and> enablePrefetch ''TRUE '' m = MatchString supportedMachineRegex m"
proof -
  have a3: "MatchString supportedMachineRegex ''projects/1/machineTypes/a3-x''"
    by code_simp
  have n2: "\<not> MatchString supportedMachineRegex ''projects/1/machineTypes/n2-x''"
    by code_simp
  show ?thesis
    using a3 n2 by (simp add: enablePrefetch_def)
qed

theorem enablePrefetch_override_policy_witness:
  "''true'' \<noteq> ''TRUE'' \<and> ''true'' \<noteq> ''FALSE''
   \<and> enablePrefetch ''true'' ''projects/1/machineTypes/a3-x''
   \<and> \<not> enablePrefetch ''false'' ''projects/1/machineTypes/n2-x''"
proof -
  have a3: "MatchString supportedMachineRegex ''projects/1/machineTypes/a3-x''"
    by code_simp
  have n2: "\<not> MatchString supportedMachineRegex ''projects/1/machineTypes/n2-x''"
    by code_simp
  from enablePrefetch_override_policy [of "''projects/1/machineTypes/a3-x''" "''true''"]
       enablePrefetch_override_policy [of "''projects/1/machineTypes/n2-x''" "''false''"] a3 n2
  show ?thesis by simp
qed

text \<open>Every run of \<open>main\<close> that is not interrupted ends in the final \<open>select\<close>.\<close>

lemma main_parks: "last (main env) = SelectForever"
  by (simp add: main_def split: prod.splits)

text \<open>
  Claim C4. When \<open>getMachineType\<close> returns an error, whichever it is, and the override is
  neither \<open>TRUE\<close> nor \<open>FALSE\<close> (unset reads as the empty string), the decision is false:
  the run of \<open>main\<close> is the warning about the fetch, the line \<open>Going to sleep...\<close> and the
  final \<open>select\<close>. No command is started and the process does not exit.
\<close>

theorem main_fetch_failure_parks_without_prefetch:
  assumes "snd (getMachineType env) = Some e"
    and "Getenv env overrideVar \<noteq> ''TRUE''"
    and "Getenv env overrideVar \<noteq> ''FALSE''"
  shows "\<not> enablePrefetch (Getenv env overrideVar) (fst (getMachineType env))
    \<and> main env =
        [Log (Warningf ''Unable to fetch machine-type, ignoring: %v'' e),
         Log (Info ''Going to sleep...''),
         SelectForever]
    \<and> last (main env) = SelectForever"
proof -
  from assms(1) have empty: "fst (getMachineType env) = []"
    by (simp add: getMachineType_error_fst)
  with assms(1) have gm: "getMachineType env = ([], Some e)"
    by (simp add: prod_eq_iff)
  from assms(2,3) have off: "\<not> enablePrefetch (Getenv env overrideVar) []"
    by (simp add: enablePrefetch_def no_match_empty)
  then have "main env =
        [Log (Warningf ''Unable to fetch machine-type, ignoring: %v'' e),
         Log (Info ''Going to sleep...''),
         SelectForever]"
    using gm by (simp add: main_def overrideVar_def)
  with off empty show ?thesis
    by simp
qed

theorem main_fetch_failure_parks_without_prefetch_witness:
  "snd (getMachineType (exampleEnv (Inl (LibError ''connection refused'')) []))
     = Some (Errorf_w ''failed to get machine type: %w'' (LibError ''connection refused''))
   \<and> Getenv (exampleEnv (Inl (LibError ''connection refused'')) []) overrideVar = []
   \<and> main (exampleEnv (Inl (LibError ''connection refused'')) []) =
        [Log (Warningf ''Unable to fetch machine-type, ignoring: %v''
               (Errorf_w ''failed to get machine type: %w'' (LibError ''connection refused''))),
         Log (Info ''Going to sleep...''),
         SelectForever]"
proof -
  let ?env = "exampleEnv (Inl (LibError ''connection refused'')) []"
  have h1: "snd (getMachineType ?env)
     = Some (Errorf_w ''failed to get machine type: %w'' (LibError ''connection refused''))"
    by (simp add: getMachineType_def exampleEnv_def)
  have h0: "Getenv ?env overrideVar = []"
    by (simp add: exampleEnv_def overrideVar_def)
  then have h2: "Getenv ?env overrideVar \<noteq> ''TRUE''" and h3: "Getenv ?env overrideVar \<noteq> ''FALSE''"
    by simp_all
  from main_fetch_failure_parks_without_prefetch [OF h1 h2 h3] h1 h0 show ?thesis
    by simp
qed

end
